theory Spec2Isabelle
  imports Complex_Main
begin

section \<open>Python values, exceptions and built-ins used by \<^verbatim>\<open>probe.py\<close>\<close>

text \<open>
  The exceptions that the modelled code can meet.  A computation that may raise returns
  a value of \<open>py_exception + 'a\<close>; \<open>Inl\<close> carries the exception.  \<open>and_then\<close> sequences
  two statements of a \<^verbatim>\<open>try\<close> block: the second runs only when the first returned.
\<close>

datatype py_exception =
  CalledProcessError | OSError | TypeError | UnicodeDecodeError | ValueError
  | ZeroDivisionError | StatisticsError | OperationalError

definition and_then :: "'e + 'a \<Rightarrow> ('a \<Rightarrow> 'e + 'b) \<Rightarrow> 'e + 'b" where
  "and_then m f = (case m of Inl e \<Rightarrow> Inl e | Inr x \<Rightarrow> f x)"

fun collect :: "('e + 'a) list \<Rightarrow> 'e + 'a list" where
  "collect [] = Inr []"
| "collect (m # ms) = and_then m (\<lambda>x. and_then (collect ms) (\<lambda>xs. Inr (x # xs)))"

subsection \<open>Character classes of the regular expressions\<close>

text \<open>
  Python strings are modelled as byte strings, so \<^verbatim>\<open>\d\<close> is the ASCII digits and
  \<^verbatim>\<open>\s\<close> the ASCII white space.
\<close>

definition is_digit :: "char \<Rightarrow> bool" where
  "is_digit c = (c \<in> set ''0123456789'')"

definition is_digit_dot :: "char \<Rightarrow> bool" where
  "is_digit_dot c = (is_digit c \<or> c = CHR ''.'')"

definition is_gateway_sep :: "char \<Rightarrow> bool" where
  "is_gateway_sep c = (c \<in> set '' .:'')"

definition newline :: char where
  "newline = CHR 0x0A"

definition is_space :: "char \<Rightarrow> bool" where
  "is_space c = (c \<in> {CHR '' '', CHR 0x09, CHR 0x0A, CHR 0x0B, CHR 0x0C, CHR 0x0D})"

fun strip_prefix :: "string \<Rightarrow> string \<Rightarrow> string option" where
  "strip_prefix [] s = Some s"
| "strip_prefix (p # ps) [] = None"
| "strip_prefix (p # ps) (c # cs) = (if p = c then strip_prefix ps cs else None)"

subsection \<open>\<^verbatim>\<open>str\<close>, \<^verbatim>\<open>float\<close>, \<^verbatim>\<open>round\<close> and true division\<close>

fun str_nat :: "nat \<Rightarrow> string" where
  "str_nat n = (if n < 10 then [''0123456789'' ! n]
                else str_nat (n div 10) @ [''0123456789'' ! (n mod 10)])"

declare str_nat.simps [simp del]

definition str :: "int \<Rightarrow> string" where
  "str i = (if i < 0 then CHR ''-'' # str_nat (nat (- i)) else str_nat (nat i))"

definition digit_val :: "char \<Rightarrow> nat" where
  "digit_val c = of_char c - 48"

definition nat_of_digits :: "string \<Rightarrow> nat" where
  "nat_of_digits ds = foldl (\<lambda>acc c. 10 * acc + digit_val c) 0 ds"

text \<open>
  \<^verbatim>\<open>float(t)\<close> on the decimal literals \<^verbatim>\<open>\d+\<close> and \<^verbatim>\<open>\d+\.\d+\<close>, the only strings the
  prober converts; any other string is answered with \<open>ValueError\<close>.  Floating-point numbers
  are idealised as real numbers throughout.
\<close>

definition py_float :: "string \<Rightarrow> py_exception + real" where
  "py_float t =
     (let whole = takeWhile is_digit t; rest = dropWhile is_digit t
      in if whole = [] then Inl ValueError
         else if rest = [] then Inr (real (nat_of_digits whole))
         else if hd rest = CHR ''.'' \<and> tl rest \<noteq> [] \<and> list_all is_digit (tl rest)
           then Inr (real (nat_of_digits whole)
                     + real (nat_of_digits (tl rest)) / 10 ^ length (tl rest))
         else Inl ValueError)"

text \<open>
  Python rounds to the nearest value and, on a tie, to the even neighbour.
  \<open>round_half_even\<close> is \<^verbatim>\<open>round(x)\<close>, \<open>py_round x n\<close> is \<^verbatim>\<open>round(x, n)\<close>.
\<close>

definition round_half_even :: "real \<Rightarrow> int" where
  "round_half_even x =
     (let f = \<lfloor>x\<rfloor>; d = x - of_int f
      in if d < 1 / 2 then f else if 1 / 2 < d then f + 1 else if even f then f else f + 1)"

definition py_round :: "real \<Rightarrow> nat \<Rightarrow> real" where
  "py_round x n = of_int (round_half_even (x * 10 ^ n)) / 10 ^ n"

definition truediv :: "real \<Rightarrow> real \<Rightarrow> py_exception + real" where
  "truediv a b = (if b = 0 then Inl ZeroDivisionError else Inr (a / b))"

subsection \<open>The \<^verbatim>\<open>statistics\<close> module\<close>

text \<open>
  \<^verbatim>\<open>statistics.mean\<close> raises on an empty series and \<^verbatim>\<open>statistics.stdev\<close> on a series of
  fewer than two points.
\<close>

definition mean :: "real list \<Rightarrow> py_exception + real" where
  "mean xs = (if xs = [] then Inl StatisticsError else Inr (sum_list xs / real (length xs)))"

definition stdev :: "real list \<Rightarrow> py_exception + real" where
  "stdev xs =
     (if length xs < 2 then Inl StatisticsError
      else let xbar = sum_list xs / real (length xs)
           in Inr (sqrt (sum_list (map (\<lambda>x. (x - xbar)\<^sup>2) xs) / real (length xs - 1))))"

section \<open>The regular expressions\<close>

text \<open>
  Each pattern is modelled by a matcher anchored at the start of its argument, and
  \<^verbatim>\<open>re.search\<close> by trying the matcher at every position from the left.

  \<^verbatim>\<open>default via ([\d.]+)\<close>: the group is the longest run of digits and dots.
\<close>

definition match_default_via :: "string \<Rightarrow> string option" where
  "match_default_via s =
     (case strip_prefix ''default via '' s of
        None \<Rightarrow> None
      | Some r \<Rightarrow> (let g = takeWhile is_digit_dot r in if g = [] then None else Some g))"

text \<open>
  \<^verbatim>\<open>Default Gateway[ .:]*([\d.]+)\<close>: the separators are taken greedily; when no digit
  follows them, the matcher backtracks to the last dot among the separators, and the group
  is that dot alone.
\<close>

definition match_default_gateway :: "string \<Rightarrow> string option" where
  "match_default_gateway s =
     (case strip_prefix ''Default Gateway'' s of
        None \<Rightarrow> None
      | Some r \<Rightarrow>
          (let seps = takeWhile is_gateway_sep r;
               g = takeWhile is_digit_dot (dropWhile is_gateway_sep r)
           in if g \<noteq> [] then Some g
              else if CHR ''.'' \<in> set seps then Some ''.''
              else None))"

text \<open>
  \<^verbatim>\<open>0.0.0.0\s+([\d.]+)\<close>, the part of the third pattern after \<^verbatim>\<open>^\<close>: the unescaped dots
  match any character but a newline.
\<close>

fun match_route_n :: "string \<Rightarrow> string option" where
  "match_route_n (z0 # a # z1 # b # z2 # c # z3 # r) =
     (if z0 = CHR ''0'' \<and> a \<noteq> newline \<and> z1 = CHR ''0'' \<and> b \<noteq> newline
         \<and> z2 = CHR ''0'' \<and> c \<noteq> newline \<and> z3 = CHR ''0''
      then (let g = takeWhile is_digit_dot (dropWhile is_space r)
            in if takeWhile is_space r = [] \<or> g = [] then None else Some g)
      else None)"
| "match_route_n s = None"

fun search :: "(string \<Rightarrow> 'a option) \<Rightarrow> string \<Rightarrow> 'a option" where
  "search m [] = m []"
| "search m (c # cs) = (case m (c # cs) of Some g \<Rightarrow> Some g | None \<Rightarrow> search m cs)"

text \<open>
  \<^verbatim>\<open>re.search\<close> of a pattern that starts with \<^verbatim>\<open>^\<close> under \<^verbatim>\<open>re.MULTILINE\<close>: the matcher
  is tried only at the start of the string and after each newline.  The flag says whether
  the current position starts a line.
\<close>

fun search_multiline :: "(string \<Rightarrow> 'a option) \<Rightarrow> bool \<Rightarrow> string \<Rightarrow> 'a option" where
  "search_multiline m bol [] = (if bol then m [] else None)"
| "search_multiline m bol (c # cs) =
     (case (if bol then m (c # cs) else None) of
        Some g \<Rightarrow> Some g
      | None \<Rightarrow> search_multiline m (c = newline) cs)"

text \<open>
  \<^verbatim>\<open>time[=<](\d+(?:\.\d+)?)\<close>: the matcher returns the group and the text after the match.
\<close>

definition match_time :: "string \<Rightarrow> (string \<times> string) option" where
  "match_time s =
     (case strip_prefix ''time'' s of
        None \<Rightarrow> None
      | Some [] \<Rightarrow> None
      | Some (c # r) \<Rightarrow>
          if c = CHR ''='' \<or> c = CHR ''<'' then
            (let whole = takeWhile is_digit r; rest = dropWhile is_digit r
             in if whole = [] then None
                else (case rest of
                        d # r' \<Rightarrow>
                          if d = CHR ''.'' \<and> takeWhile is_digit r' \<noteq> []
                          then Some (whole @ CHR ''.'' # takeWhile is_digit r',
                                     dropWhile is_digit r')
                          else Some (whole, rest)
                      | [] \<Rightarrow> Some (whole, rest)))
          else None)"

lemma strip_prefix_length:
  "strip_prefix p s = Some r \<Longrightarrow> length r + length p = length s"
  by (induction p s rule: strip_prefix.induct) (auto split: if_splits)

lemma match_time_shorter:
  assumes "match_time s = Some (g, rest)"
  shows "length rest < length s"
proof -
  from assms obtain c r where r: "strip_prefix ''time'' s = Some (c # r)"
    by (auto simp: match_time_def split: option.splits list.splits)
  have whole: "length (dropWhile is_digit r) \<le> length r"
    by (rule length_dropWhile_le)
  have frac: "length (dropWhile is_digit r') \<le> length r"
    if "dropWhile is_digit r = d # r'" for d r'
    using whole that length_dropWhile_le [of is_digit r'] by simp
  from assms r have "rest = dropWhile is_digit r
      \<or> (\<exists>d r'. dropWhile is_digit r = d # r' \<and> rest = dropWhile is_digit r')"
    by (auto simp: match_time_def Let_def split: if_splits list.splits)
  then have "length rest \<le> length r"
    using whole frac by auto
  with strip_prefix_length [OF r] show ?thesis by simp
qed

text \<open>
  \<^verbatim>\<open>re.findall\<close>: the groups of the matches found from left to right, each search
  resuming where the previous match ended.
\<close>

function findall_time :: "string \<Rightarrow> string list" where
  "findall_time [] = []"
| "findall_time (c # cs) =
     (case match_time (c # cs) of
        Some (g, rest) \<Rightarrow> g # findall_time rest
      | None \<Rightarrow> findall_time cs)"
  by pat_completeness auto
termination
  by (relation "measure length") (auto dest: match_time_shorter)

section \<open>The host: platform and external commands\<close>

text \<open>
  What the program observes of its host at one moment: \<^verbatim>\<open>platform.system()\<close>, and the
  outcome of \<^verbatim>\<open>subprocess.check_output(...).decode()\<close> for a shell command line
  (\<^verbatim>\<open>shell=True\<close>) and for an argument vector.  An outcome is the decoded output or the
  exception raised (non-zero exit status, missing program, undecodable bytes).
\<close>

record host =
  platform_system :: string
  run_shell :: "string \<Rightarrow> py_exception + string"
  run_argv :: "string list \<Rightarrow> py_exception + string"

text \<open>
  An argument vector whose entries may be \<^verbatim>\<open>None\<close>: \<^verbatim>\<open>subprocess\<close> raises \<open>TypeError\<close>
  for such a vector before any process is started.
\<close>

definition check_output :: "host \<Rightarrow> string option list \<Rightarrow> py_exception + string" where
  "check_output h command =
     (if None \<in> set command then Inl TypeError else run_argv h (map the command))"

section \<open>Routing information\<close>

text \<open>The first definition of \<^verbatim>\<open>get_default_gateway_ip\<close> (lines 41--52), later shadowed.\<close>

definition get_default_gateway_ip_shadowed :: "host \<Rightarrow> string" where
  "get_default_gateway_ip_shadowed h =
     (case (if platform_system h = ''Windows''
            then and_then (run_shell h ''ipconfig'')
                   (\<lambda>output. Inr (search match_default_gateway output))
            else and_then (run_shell h ''ip route'')
                   (\<lambda>output. Inr (search match_default_via output))) of
        Inr (Some g) \<Rightarrow> g
      | Inr None \<Rightarrow> ''unknown''
      | Inl e \<Rightarrow> ''unknown'')"

definition get_router_ip :: "host \<Rightarrow> string" where
  "get_router_ip h =
     (case (if platform_system h = ''Windows''
            then and_then (run_shell h ''ipconfig'')
                   (\<lambda>output. Inr (search match_default_gateway output))
            else and_then (run_shell h ''ip route'')
                   (\<lambda>output. Inr (search match_default_via output))) of
        Inr (Some g) \<Rightarrow> g
      | Inr None \<Rightarrow> ''unknown''
      | Inl e \<Rightarrow> ''unknown'')"

text \<open>
  The second definition of \<^verbatim>\<open>get_default_gateway_ip\<close> (lines 137--177), the one the loop
  calls.  Its opening \<^verbatim>\<open>try\<close> block only reads interface statistics into variables that
  are never used, under a bare \<^verbatim>\<open>except\<close>, and so has no effect on the result.
\<close>

definition get_default_gateway_ip :: "host \<Rightarrow> string option" where
  "get_default_gateway_ip h =
     (let system = platform_system h
      in if system = ''Windows'' then
           (case run_argv h [''ipconfig''] of
              Inr output \<Rightarrow>
                (case search match_default_gateway output of
                   Some g \<Rightarrow> Some g
                 | None \<Rightarrow> None)
            | Inl e \<Rightarrow> None)
         else if system \<in> {''Linux'', ''Darwin''} then
           (case run_argv h [''ip'', ''route''] of
              Inr output \<Rightarrow>
                (case search match_default_via output of
                   Some g \<Rightarrow> Some g
                 | None \<Rightarrow> None)
            | Inl e \<Rightarrow>
                (case run_argv h [''route'', ''-n''] of
                   Inr output \<Rightarrow>
                     (case search_multiline match_route_n True output of
                        Some g \<Rightarrow> Some g
                      | None \<Rightarrow> None)
                 | Inl e' \<Rightarrow> None))
         else None)"

section \<open>Prober and reachability checker\<close>

text \<open>
  The argument vector that \<^verbatim>\<open>ping_router\<close> and \<^verbatim>\<open>check_gateway_reachability\<close> both build
  before their \<^verbatim>\<open>try\<close> block; the target is passed on as it is, \<^verbatim>\<open>None\<close> included.
\<close>

definition ping_command :: "host \<Rightarrow> string option \<Rightarrow> int \<Rightarrow> string option list" where
  "ping_command h ip count =
     (if platform_system h = ''Windows''
      then [Some ''ping'', Some ''-n'', Some (str count), ip]
      else [Some ''ping'', Some ''-c'', Some (str count), ip])"

text \<open>
  \<^verbatim>\<open>ping_router(ip, count)\<close> returns the triple \<^verbatim>\<open>(latency, packet_loss, jitter)\<close>; each
  component may be \<^verbatim>\<open>None\<close>.  The body of the \<^verbatim>\<open>try\<close> block is a chain of \<open>and_then\<close>;
  the handler \<^verbatim>\<open>except Exception\<close> answers every exception with three \<^verbatim>\<open>None\<close>s.
\<close>

definition ping_router ::
  "host \<Rightarrow> string option \<Rightarrow> int \<Rightarrow> real option \<times> real option \<times> real option" where
  "ping_router h ip count =
     (case
        and_then (check_output h (ping_command h ip count)) (\<lambda>output.
        and_then (collect (map py_float (findall_time output))) (\<lambda>times.
        and_then (if times \<noteq> []
                  then and_then (mean times) (\<lambda>m. Inr (Some (py_round m 2)))
                  else Inr None) (\<lambda>latency.
        and_then (if 1 < length times
                  then and_then (stdev times) (\<lambda>sd. Inr (py_round sd 2))
                  else Inr 0) (\<lambda>jitter.
        and_then (truediv (real_of_int (100 * (count - int (length times))))
                          (real_of_int count)) (\<lambda>packet_loss.
        Inr (latency, Some packet_loss, Some jitter))))))
      of
        Inr result \<Rightarrow> result
      | Inl e \<Rightarrow> (None, None, None))"

definition check_gateway_reachability :: "host \<Rightarrow> string option \<Rightarrow> int \<Rightarrow> string" where
  "check_gateway_reachability h ip count =
     (case
        and_then (check_output h (ping_command h ip count)) (\<lambda>output.
        let received = length (findall_time output)
        in and_then (truediv (real received) (real_of_int count)) (\<lambda>ratio.
           let reachability = round_half_even (ratio * 100)
           in Inr (str reachability @ ''%'')))
      of
        Inr result \<Rightarrow> result
      | Inl e \<Rightarrow> ''unknown'')"

section \<open>Store, exporter and the collection loop\<close>

text \<open>
  A reading of \<^verbatim>\<open>datetime.datetime.now()\<close>, given by its two renderings
  \<^verbatim>\<open>strftime("%Y-%m-%d")\<close> and \<^verbatim>\<open>strftime("%H:%M:%S")\<close>.
\<close>

record datetime =
  ymd :: string
  hms :: string

definition get_current_timestamp :: "datetime \<Rightarrow> string" where
  "get_current_timestamp now = ymd now @ '' '' @ hms now"

text \<open>A row of the table \<^verbatim>\<open>new_probe_logs\<close>, one field per column.\<close>

record probe_row =
  col_id :: nat
  col_date :: string
  col_time :: string
  col_router_ip :: string
  col_router_mac :: string
  col_interface :: string
  col_latency :: "real option"
  col_jitter :: "real option"
  col_packet_loss :: "real option"
  col_signal_strength :: string
  col_download_speed :: "real option"
  col_upload_speed :: "real option"
  col_isp_name :: string
  col_gw_reach :: string
  col_interface_ip :: string

text \<open>
  The table with its rows in insertion order and the \<^verbatim>\<open>AUTOINCREMENT\<close> counter (the
  largest id ever given out).  A database file holds the table or not.
\<close>

record table =
  tbl_rows :: "probe_row list"
  tbl_seq :: nat

record database =
  new_probe_logs :: "table option"

datatype csv_line = Header "string list" | Data probe_row

text \<open>
  The files the program reads and writes (\<open>None\<close>: the file does not exist), and the
  durations it has slept, in order.
\<close>

record state =
  data_db :: "database option"
  data_backup_db :: "database option"
  new_probe_logs_csv :: "csv_line list option"
  slept :: "nat list"

text \<open>\<^verbatim>\<open>sqlite3.connect\<close> opens the file, or an empty database when there is none.\<close>

definition connect :: "database option \<Rightarrow> database" where
  "connect f = (case f of Some d \<Rightarrow> d | None \<Rightarrow> \<lparr>new_probe_logs = None\<rparr>)"

definition create_table_if_not_exists :: "database \<Rightarrow> database" where
  "create_table_if_not_exists d =
     (case new_probe_logs d of
        Some t \<Rightarrow> d
      | None \<Rightarrow> d\<lparr>new_probe_logs := Some \<lparr>tbl_rows = [], tbl_seq = 0\<rparr>\<rparr>)"

definition initialize_database :: "state \<Rightarrow> state" where
  "initialize_database s =
     (let s1 = (if data_db s \<noteq> None then s\<lparr>data_backup_db := data_db s\<rparr> else s)
      in s1\<lparr>data_db := Some (create_table_if_not_exists (connect (data_db s1)))\<rparr>)"

text \<open>The id an \<^verbatim>\<open>AUTOINCREMENT\<close> column gives the next row.\<close>

definition next_id :: "table \<Rightarrow> nat" where
  "next_id t = Suc (fold max (map col_id (tbl_rows t)) (tbl_seq t))"

text \<open>
  \<^verbatim>\<open>log_to_db\<close>.  Its first two arguments are what the function reads itself:
  \<^verbatim>\<open>get_active_interface()\<close> and \<^verbatim>\<open>datetime.datetime.now()\<close>; the others are the
  parameters of the source, in order.  The \<^verbatim>\<open>INSERT\<close> raises when the table is missing.
\<close>

definition log_to_db ::
  "string \<Rightarrow> datetime \<Rightarrow> string \<Rightarrow> string \<Rightarrow> string \<Rightarrow> real option \<Rightarrow> real option
   \<Rightarrow> real option \<Rightarrow> string \<Rightarrow> real option \<Rightarrow> real option \<Rightarrow> string \<Rightarrow> string \<Rightarrow> string
   \<Rightarrow> state \<Rightarrow> py_exception + state" where
  "log_to_db interface now timestamp router_ip router_mac latency packet_loss jitter
     signal_strength download_speed upload_speed isp_name gw_reach interface_ip s =
     (let date = ymd now;
          time_str = hms now;
          conn = connect (data_db s)
      in case new_probe_logs conn of
           None \<Rightarrow> Inl OperationalError
         | Some t \<Rightarrow>
             (let row = \<lparr>col_id = next_id t, col_date = date, col_time = time_str,
                         col_router_ip = router_ip, col_router_mac = router_mac,
                         col_interface = interface, col_latency = latency,
                         col_jitter = jitter, col_packet_loss = packet_loss,
                         col_signal_strength = signal_strength,
                         col_download_speed = download_speed,
                         col_upload_speed = upload_speed, col_isp_name = isp_name,
                         col_gw_reach = gw_reach, col_interface_ip = interface_ip\<rparr>
              in Inr (s\<lparr>data_db := Some (conn\<lparr>new_probe_logs :=
                        Some \<lparr>tbl_rows = tbl_rows t @ [row], tbl_seq = next_id t\<rparr>\<rparr>)\<rparr>)))"

text \<open>
  \<^verbatim>\<open>SELECT * FROM new_probe_logs ORDER BY id DESC LIMIT 1\<close> with \<^verbatim>\<open>fetchone\<close>: the row of
  the largest id, \<open>None\<close> for an empty table.
\<close>

fun latest_row :: "probe_row list \<Rightarrow> probe_row option" where
  "latest_row [] = None"
| "latest_row (r # rs) =
     (case latest_row rs of
        None \<Rightarrow> Some r
      | Some r' \<Rightarrow> if col_id r < col_id r' then Some r' else Some r)"

definition csv_header :: "string list" where
  "csv_header =
     [''ID'', ''Date'', ''Time'', ''Router IP'', ''Router MAC'',
      ''Interface'', ''Latency'', ''Jitter'', ''Packet Loss'',
      ''Signal Strength'', ''Download Speed'', ''Upload Speed'',
      ''ISP Name'', ''Gateway Reachability'', ''Interface IP'']"

text \<open>
  \<^verbatim>\<open>export_to_csv()\<close> with its default paths.  Opening the mirror in append mode creates
  it when it is missing.
\<close>

definition export_to_csv :: "state \<Rightarrow> py_exception + state" where
  "export_to_csv s =
     (case data_db s of
        None \<Rightarrow> Inr s
      | Some d \<Rightarrow>
          (case new_probe_logs d of
             None \<Rightarrow> Inl OperationalError
           | Some t \<Rightarrow>
               (let row = latest_row (tbl_rows t);
                    file_exists = (new_probe_logs_csv s \<noteq> None);
                    csvfile = (case new_probe_logs_csv s of None \<Rightarrow> [] | Some ls \<Rightarrow> ls);
                    csvfile = (if \<not> file_exists then csvfile @ [Header csv_header]
                               else csvfile);
                    csvfile = (case row of Some r \<Rightarrow> csvfile @ [Data r] | None \<Rightarrow> csvfile)
                in Inr (s\<lparr>new_probe_logs_csv := Some csvfile\<rparr>))))"

definition sleep :: "nat \<Rightarrow> state \<Rightarrow> state" where
  "sleep seconds s = s\<lparr>slept := slept s @ [seconds]\<rparr>"

text \<open>
  What one pass of the loop reads from outside, in the order of the calls: the host as
  each of the four modelled routines finds it, the two clock readings, and the values
  returned by the collaborators that are not modelled further (\<^verbatim>\<open>get_router_mac\<close>,
  \<^verbatim>\<open>get_signal_strength\<close>, \<^verbatim>\<open>get_speedtest\<close>, \<^verbatim>\<open>get_isp_name\<close>, \<^verbatim>\<open>get_interface_ip\<close>,
  \<^verbatim>\<open>get_active_interface\<close>).
\<close>

record cycle_env =
  host_at_gateway :: host
  clock_at_start :: datetime
  host_at_router :: host
  got_router_mac :: string
  host_at_ping :: host
  got_signal_strength :: string
  got_speedtest :: "real option \<times> real option"
  got_isp_name :: string
  host_at_reach :: host
  got_interface_ip :: string
  got_active_interface :: string
  clock_at_log :: datetime

text \<open>The body of \<^verbatim>\<open>while True\<close> in \<^verbatim>\<open>main\<close>.\<close>

definition cycle :: "cycle_env \<Rightarrow> state \<Rightarrow> py_exception + state" where
  "cycle e s =
     (let gateway_ip = get_default_gateway_ip (host_at_gateway e);
          timestamp = get_current_timestamp (clock_at_start e);
          router_ip = get_router_ip (host_at_router e);
          router_id = got_router_mac e;
          (latency, packet_loss, jitter) = ping_router (host_at_ping e) (Some router_ip) 10;
          signal_strength = got_signal_strength e;
          (download_speed, upload_speed) = got_speedtest e;
          isp_name = got_isp_name e;
          gw_reach = check_gateway_reachability (host_at_reach e) gateway_ip 10;
          interface_ip = got_interface_ip e
      in if latency = None then Inr (sleep 50 s)
         else and_then (log_to_db (got_active_interface e) (clock_at_log e) timestamp
                          router_ip router_id latency packet_loss jitter signal_strength
                          download_speed upload_speed isp_name gw_reach interface_ip s)
                (\<lambda>s1. and_then (export_to_csv s1) (\<lambda>s2. Inr (sleep 300 s2))))"

text \<open>
  The loop runs one pass per element of the list and ends when the interrupt arrives;
  an exception that escapes a pass ends the program.
\<close>

fun run_loop :: "cycle_env list \<Rightarrow> state \<Rightarrow> py_exception + state" where
  "run_loop [] s = Inr s"
| "run_loop (e # es) s = and_then (cycle e s) (run_loop es)"

definition main :: "cycle_env list \<Rightarrow> state \<Rightarrow> py_exception + state" where
  "main es s = run_loop es (initialize_database s)"

section \<open>Notions used to state the properties\<close>

text \<open>
  The series of round-trip times parsed from the output of a probe batch, and the two
  statistics the specification names: the arithmetic mean and the sample standard
  deviation.
\<close>

definition reply_series :: "string \<Rightarrow> real list" where
  "reply_series out =
     (case collect (map py_float (findall_time out)) of
        Inr series \<Rightarrow> series
      | Inl e \<Rightarrow> [])"

definition arithmetic_mean :: "real list \<Rightarrow> real" where
  "arithmetic_mean xs = sum_list xs / real (length xs)"

definition sample_stdev :: "real list \<Rightarrow> real" where
  "sample_stdev xs =
     sqrt ((\<Sum>x\<leftarrow>xs. (x - arithmetic_mean xs)\<^sup>2) / (real (length xs) - 1))"

text \<open>
  Example hosts: a Linux machine on which the only command that runs is a batch of ten
  probes to \<^verbatim>\<open>192.168.1.1\<close>, with the given outcome.
\<close>

definition ping_host :: "py_exception + string \<Rightarrow> host" where
  "ping_host outcome =
     \<lparr>platform_system = ''Linux'',
      run_shell = (\<lambda>c. Inl CalledProcessError),
      run_argv = (\<lambda>argv. if argv = [''ping'', ''-c'', ''10'', ''192.168.1.1'']
                          then outcome else Inl CalledProcessError)\<rparr>"

definition three_replies :: string where
  "three_replies =
     ''64 bytes from 192.168.1.1: icmp_seq=1 ttl=64 time=20 ms'' @ [newline] @
     ''64 bytes from 192.168.1.1: icmp_seq=4 ttl=64 time=22 ms'' @ [newline] @
     ''64 bytes from 192.168.1.1: icmp_seq=9 ttl=64 time=21 ms'' @ [newline] @
     ''10 packets transmitted, 3 received, 70% packet loss''"

definition no_replies :: string where
  "no_replies = ''10 packets transmitted, 0 received, 100% packet loss''"

text \<open>
  What one strategy of gateway resolution parses from the outcome of its command:
  nothing when the command raised or the pattern is not found.
\<close>

definition parsed_gateway ::
  "(string \<Rightarrow> string option) \<Rightarrow> py_exception + string \<Rightarrow> string option" where
  "parsed_gateway pattern outcome = (case outcome of Inr out \<Rightarrow> pattern out | Inl e \<Rightarrow> None)"

text \<open>
  The samples a data file holds (none when the file or the table is missing), the
  samples of the store, and whether the store is ready for an \<^verbatim>\<open>INSERT\<close>.
\<close>

definition database_rows :: "database option \<Rightarrow> probe_row list" where
  "database_rows f =
     (case f of
        None \<Rightarrow> []
      | Some d \<Rightarrow> (case new_probe_logs d of None \<Rightarrow> [] | Some t \<Rightarrow> tbl_rows t))"

definition store_rows :: "state \<Rightarrow> probe_row list" where
  "store_rows s = database_rows (data_db s)"

definition table_ready :: "state \<Rightarrow> bool" where
  "table_ready s = (case data_db s of None \<Rightarrow> False | Some d \<Rightarrow> new_probe_logs d \<noteq> None)"

text \<open>The lines of the export mirror, its data rows and the number of its header rows.\<close>

definition mirror_lines :: "state \<Rightarrow> csv_line list" where
  "mirror_lines s = (case new_probe_logs_csv s of None \<Rightarrow> [] | Some ls \<Rightarrow> ls)"

fun data_rows :: "csv_line list \<Rightarrow> probe_row list" where
  "data_rows [] = []"
| "data_rows (Header h # ls) = data_rows ls"
| "data_rows (Data r # ls) = r # data_rows ls"

fun header_count :: "csv_line list \<Rightarrow> nat" where
  "header_count [] = 0"
| "header_count (Header h # ls) = Suc (header_count ls)"
| "header_count (Data r # ls) = header_count ls"

text \<open>
  The probe statistics of a pass, the row a recording pass inserts, and the state a
  recording pass leaves.
\<close>

definition probe_of :: "cycle_env \<Rightarrow> real option \<times> real option \<times> real option" where
  "probe_of e = ping_router (host_at_ping e) (Some (get_router_ip (host_at_router e))) 10"

definition recorded_row ::
  "cycle_env \<Rightarrow> nat \<Rightarrow> real option \<Rightarrow> real option \<Rightarrow> real option \<Rightarrow> probe_row" where
  "recorded_row e i latency packet_loss jitter =
     \<lparr>col_id = i, col_date = ymd (clock_at_log e), col_time = hms (clock_at_log e),
      col_router_ip = get_router_ip (host_at_router e), col_router_mac = got_router_mac e,
      col_interface = got_active_interface e, col_latency = latency, col_jitter = jitter,
      col_packet_loss = packet_loss, col_signal_strength = got_signal_strength e,
      col_download_speed = fst (got_speedtest e), col_upload_speed = snd (got_speedtest e),
      col_isp_name = got_isp_name e,
      col_gw_reach = check_gateway_reachability (host_at_reach e)
                       (get_default_gateway_ip (host_at_gateway e)) 10,
      col_interface_ip = got_interface_ip e\<rparr>"

definition recorded :: "cycle_env \<Rightarrow> state \<Rightarrow> probe_row \<Rightarrow> state" where
  "recorded e s row =
     s\<lparr>data_db := Some ((connect (data_db s))\<lparr>new_probe_logs :=
          Some \<lparr>tbl_rows = store_rows s @ [row], tbl_seq = col_id row\<rparr>\<rparr>),
       new_probe_logs_csv :=
          Some ((case new_probe_logs_csv s of None \<Rightarrow> [Header csv_header] | Some ls \<Rightarrow> ls)
                @ [Data row]),
       slept := slept s @ [300]\<rparr>"

text \<open>
  \<open>extends s s' rows\<close>: state \<open>s'\<close> differs from \<open>s\<close> by the samples \<open>rows\<close>, appended
  to the store and to the mirror alike; the backup is untouched.  A sample is complete
  when its three probe statistics are present.
\<close>

definition extends :: "state \<Rightarrow> state \<Rightarrow> probe_row list \<Rightarrow> bool" where
  "extends s s' rows =
     (table_ready s'
      \<and> store_rows s' = store_rows s @ rows
      \<and> new_probe_logs_csv s' =
          (if rows = [] then new_probe_logs_csv s
           else Some ((case new_probe_logs_csv s of None \<Rightarrow> [Header csv_header] | Some ls \<Rightarrow> ls)
                      @ map Data rows))
      \<and> data_backup_db s' = data_backup_db s)"

definition complete :: "probe_row \<Rightarrow> bool" where
  "complete r = (col_latency r \<noteq> None \<and> col_jitter r \<noteq> None \<and> col_packet_loss r \<noteq> None)"

text \<open>
  More examples: a host whose routing table names \<^verbatim>\<open>192.168.1.1\<close>, two clock readings 45
  seconds apart, the readings of one pass around a given outcome of the probe batch, a
  machine on which the program has never run, and one that holds the data file of an
  earlier run beside an older backup.
\<close>

definition router_host :: host where
  "router_host =
     \<lparr>platform_system = ''Linux'',
      run_shell = (\<lambda>c. if c = ''ip route'' then Inr ''default via 192.168.1.1 dev eth0''
                        else Inl CalledProcessError),
      run_argv = (\<lambda>argv. if argv = [''ip'', ''route'']
                          then Inr ''default via 192.168.1.1 dev eth0''
                          else Inl CalledProcessError)\<rparr>"

definition noon :: datetime where
  "noon = \<lparr>ymd = ''2024-01-01'', hms = ''12:00:00''\<rparr>"

definition after_noon :: datetime where
  "after_noon = \<lparr>ymd = ''2024-01-01'', hms = ''12:00:45''\<rparr>"

definition example_env :: "py_exception + string \<Rightarrow> cycle_env" where
  "example_env outcome =
     \<lparr>host_at_gateway = router_host, clock_at_start = noon, host_at_router = router_host,
      got_router_mac = ''aa:bb:cc:dd:ee:ff'', host_at_ping = ping_host outcome,
      got_signal_strength = ''unknown'', got_speedtest = (None, None),
      got_isp_name = ''unknown'', host_at_reach = ping_host outcome,
      got_interface_ip = ''192.168.1.20'', got_active_interface = ''eth0'',
      clock_at_log = after_noon\<rparr>"

definition fresh :: state where
  "fresh = \<lparr>data_db = None, data_backup_db = None, new_probe_logs_csv = None, slept = []\<rparr>"

definition earlier_run :: state where
  "earlier_run =
     \<lparr>data_db = Some \<lparr>new_probe_logs = Some
        \<lparr>tbl_rows = [recorded_row (example_env (Inr three_replies)) 1 (Some 21) (Some 70) (Some 1)],
         tbl_seq = 1\<rparr>\<rparr>,
      data_backup_db = Some \<lparr>new_probe_logs = None\<rparr>,
      new_probe_logs_csv = None, slept = []\<rparr>"

text \<open>A pass on a host whose gateway cannot be resolved while the router answers.\<close>

definition unresolved_env :: cycle_env where
  "unresolved_env =
     (example_env (Inr three_replies))\<lparr>host_at_gateway := ping_host (Inr three_replies)\<rparr>"

section \<open>The parsed series\<close>

lemma takeWhile_digits_dot:
  "takeWhile is_digit (takeWhile is_digit r @ CHR ''.'' # f) = takeWhile is_digit r"
  by (induction r) (auto simp: is_digit_def)

lemma dropWhile_digits_dot:
  "dropWhile is_digit (takeWhile is_digit r @ CHR ''.'' # f) = CHR ''.'' # f"
  by (induction r) (auto simp: is_digit_def)

lemma list_all_takeWhile: "list_all P (takeWhile P xs)"
  by (induction xs) auto

lemma dropWhile_takeWhile_same: "dropWhile P (takeWhile P xs) = []"
  by (induction xs) auto

lemma py_float_whole:
  "takeWhile is_digit r \<noteq> [] \<Longrightarrow> \<exists>x. py_float (takeWhile is_digit r) = Inr x"
  by (simp add: py_float_def Let_def dropWhile_takeWhile_same)

lemma py_float_fraction:
  assumes "takeWhile is_digit r \<noteq> []" "takeWhile is_digit f \<noteq> []"
  shows "\<exists>x. py_float (takeWhile is_digit r @ CHR ''.'' # takeWhile is_digit f) = Inr x"
  using assms
  by (simp add: py_float_def Let_def takeWhile_digits_dot dropWhile_digits_dot list_all_takeWhile)

text \<open>Every group the pattern captures is a literal that \<^verbatim>\<open>float\<close> accepts.\<close>

lemma match_time_float:
  assumes "match_time s = Some (g, rest)"
  shows "\<exists>x. py_float g = Inr x"
proof -
  from assms obtain r f where
    "(g = takeWhile is_digit r \<and> takeWhile is_digit r \<noteq> [])
     \<or> (g = takeWhile is_digit r @ CHR ''.'' # takeWhile is_digit f
        \<and> takeWhile is_digit r \<noteq> [] \<and> takeWhile is_digit f \<noteq> [])"
    by (auto simp: match_time_def Let_def split: option.splits list.splits if_splits)
  then show ?thesis
    using py_float_whole py_float_fraction by blast
qed

lemma collect_findall_time:
  "\<exists>series. collect (map py_float (findall_time s)) = Inr series
            \<and> length series = length (findall_time s)"
proof (induction s rule: findall_time.induct)
  case 1
  show ?case by simp
next
  case (2 c cs)
  show ?case
  proof (cases "match_time (c # cs)")
    case None
    with 2 show ?thesis by simp
  next
    case (Some p)
    obtain g rest where p: "p = (g, rest)" by (cases p)
    from Some p match_time_float obtain x where x: "py_float g = Inr x" by blast
    from 2(2) [OF Some [unfolded p] refl] obtain series where
      "collect (map py_float (findall_time rest)) = Inr series"
      "length series = length (findall_time rest)" by blast
    with Some p x show ?thesis by (simp add: and_then_def)
  qed
qed

lemma collect_reply_series:
  "collect (map py_float (findall_time out)) = Inr (reply_series out)"
  using collect_findall_time [of out] by (auto simp: reply_series_def)

lemma length_reply_series:
  "length (reply_series out) = length (findall_time out)"
  using collect_findall_time [of out] by (auto simp: reply_series_def)

section \<open>The prober\<close>

lemma ping_router_returned:
  assumes "check_output h (ping_command h ip count) = Inr out" and "count \<noteq> 0"
  shows "ping_router h ip count =
     (if reply_series out = [] then None
      else Some (py_round (arithmetic_mean (reply_series out)) 2),
      Some (real_of_int (100 * (count - int (length (reply_series out)))) / real_of_int count),
      Some (if 1 < length (reply_series out)
            then py_round (sample_stdev (reply_series out)) 2 else 0))"
  using assms
  by (simp add: ping_router_def and_then_def collect_reply_series mean_def stdev_def
      truediv_def arithmetic_mean_def sample_stdev_def Let_def)

lemma ping_router_raised:
  assumes "check_output h (ping_command h ip count) = Inl ex"
  shows "ping_router h ip count = (None, None, None)"
  using assms by (simp add: ping_router_def and_then_def)

lemma ping_router_zero_count:
  "ping_router h ip 0 = (None, None, None)"
  by (cases "check_output h (ping_command h ip 0)")
     (auto simp: ping_router_def and_then_def truediv_def collect_reply_series
           split: sum.splits)

lemma check_output_ping_host:
  "check_output (ping_host outcome) (ping_command (ping_host outcome) (Some ''192.168.1.1'') 10)
     = outcome"
  by (simp add: check_output_def ping_command_def ping_host_def str_def str_nat.simps)

lemma reply_series_three_replies: "reply_series three_replies = [20, 22, 21]"
  by (simp add: reply_series_def three_replies_def newline_def match_time_def is_digit_def
      py_float_def nat_of_digits_def digit_val_def and_then_def)

lemma reply_series_no_replies: "reply_series no_replies = []"
  by (simp add: reply_series_def no_replies_def match_time_def)

lemma py_round_of_int: "py_round (of_int i) n = of_int i"
proof -
  have "of_int i * (10::real) ^ n = of_int (i * 10 ^ n)" by simp
  then have "round_half_even (of_int i * 10 ^ n) = i * 10 ^ n"
    unfolding round_half_even_def Let_def by (simp del: of_int_mult of_int_power)
  then show ?thesis by (simp add: py_round_def)
qed





section \<open>The reachability checker and gateway resolution\<close>

lemma check_output_None:
  "check_output h (ping_command h None count) = Inl TypeError"
  by (simp add: check_output_def ping_command_def)

lemma reachability_returned:
  assumes "check_output h (ping_command h ip count) = Inr out" and "count \<noteq> 0"
  shows "check_gateway_reachability h ip count =
     str (round_half_even (real (length (findall_time out)) / real_of_int count * 100)) @ ''%''"
  using assms by (simp add: check_gateway_reachability_def and_then_def truediv_def Let_def)

lemma reachability_raised:
  assumes "check_output h (ping_command h ip count) = Inl ex"
  shows "check_gateway_reachability h ip count = ''unknown''"
  using assms by (simp add: check_gateway_reachability_def and_then_def)

lemma reachability_None: "check_gateway_reachability h None count = ''unknown''"
  by (rule reachability_raised [OF check_output_None])

lemma search_Some:
  assumes "search m s = Some g"
  shows "\<exists>s'. m s' = Some g"
  using assms by (induction s) (auto split: option.splits)

lemma search_multiline_Some:
  assumes "search_multiline m bol s = Some g"
  shows "\<exists>s'. m s' = Some g"
  using assms by (induction s arbitrary: bol) (auto split: option.splits if_splits)

lemma match_default_via_group:
  "match_default_via s = Some g \<Longrightarrow> g \<noteq> [] \<and> list_all is_digit_dot g"
  by (auto simp: match_default_via_def Let_def list_all_takeWhile split: option.splits if_splits)

lemma match_default_gateway_group:
  "match_default_gateway s = Some g \<Longrightarrow> g \<noteq> [] \<and> list_all is_digit_dot g"
  by (auto simp: match_default_gateway_def Let_def list_all_takeWhile is_digit_dot_def
           split: option.splits if_splits)

lemma match_route_n_group:
  "match_route_n s = Some g \<Longrightarrow> g \<noteq> [] \<and> list_all is_digit_dot g"
  by (induction s rule: match_route_n.induct)
     (auto simp: Let_def list_all_takeWhile split: if_splits)

lemma get_default_gateway_ip_group:
  assumes "get_default_gateway_ip h = Some g"
  shows "g \<noteq> [] \<and> list_all is_digit_dot g"
proof -
  from assms have "(\<exists>s. match_default_gateway s = Some g) \<or> (\<exists>s. match_default_via s = Some g)
      \<or> (\<exists>s. match_route_n s = Some g)"
    by (auto simp: get_default_gateway_ip_def Let_def
             split: if_splits sum.splits option.splits
             dest: search_Some search_multiline_Some)
  then show ?thesis
    using match_default_via_group match_default_gateway_group match_route_n_group by blast
qed

lemma unknown_not_group: "\<not> list_all is_digit_dot ''unknown''"
  by (simp add: is_digit_dot_def is_digit_def)

lemma get_default_gateway_ip_not_unknown: "get_default_gateway_ip h \<noteq> Some ''unknown''"
  using get_default_gateway_ip_group [of h "''unknown''"] unknown_not_group by blast

lemma get_default_gateway_ip_unparsed:
  assumes "parsed_gateway (search match_default_gateway) (run_argv h [''ipconfig'']) = None"
    and "parsed_gateway (search match_default_via) (run_argv h [''ip'', ''route'']) = None"
    and "parsed_gateway (search_multiline match_route_n True) (run_argv h [''route'', ''-n'']) = None"
  shows "get_default_gateway_ip h = None"
  using assms
  by (auto simp: get_default_gateway_ip_def parsed_gateway_def Let_def
           split: sum.splits option.splits)

lemma shadowed_unparsed:
  assumes "parsed_gateway (search match_default_gateway) (run_shell h ''ipconfig'') = None"
    and "parsed_gateway (search match_default_via) (run_shell h ''ip route'') = None"
  shows "get_default_gateway_ip_shadowed h = ''unknown''"
  using assms
  by (auto simp: get_default_gateway_ip_shadowed_def parsed_gateway_def and_then_def
           split: sum.splits option.splits)

section \<open>One pass of the loop\<close>

lemma fold_max_ge_start: "(a::nat) \<le> fold max xs a"
  by (induction xs arbitrary: a) (auto intro: order_trans [OF max.cobounded2])

lemma fold_max_ge_member: "(x::nat) \<in> set xs \<Longrightarrow> x \<le> fold max xs a"
proof (induction xs arbitrary: a)
  case Nil
  then show ?case by simp
next
  case (Cons y ys)
  show ?case
  proof (cases "x = y")
    case True
    have "max y a \<le> fold max ys (max y a)" by (rule fold_max_ge_start)
    with True show ?thesis by simp
  next
    case False
    with Cons show ?thesis by simp
  qed
qed

lemma next_id_above_rows: "r \<in> set (tbl_rows t) \<Longrightarrow> col_id r < next_id t"
  using fold_max_ge_member [of "col_id r" "map col_id (tbl_rows t)" "tbl_seq t"]
  by (auto simp: next_id_def)

lemma next_id_above_seq: "tbl_seq t < next_id t"
  using fold_max_ge_start [of "tbl_seq t" "map col_id (tbl_rows t)"]
  by (simp add: next_id_def)

lemma latest_row_snoc:
  "(\<forall>r\<in>set rs. col_id r < col_id x) \<Longrightarrow> latest_row (rs @ [x]) = Some x"
  by (induction rs) auto

lemma cycle_skip:
  assumes "fst (probe_of e) = None"
  shows "cycle e s = Inr (sleep 50 s)"
  using assms by (auto simp: cycle_def probe_of_def Let_def split: prod.splits)

lemma cycle_record:
  assumes db: "data_db s = Some d" and tbl: "new_probe_logs d = Some t"
    and probe: "probe_of e = (Some l, pl, j)"
  shows "cycle e s = Inr (recorded e s (recorded_row e (next_id t) (Some l) pl j))"
proof -
  let ?row = "recorded_row e (next_id t) (Some l) pl j"
  have id: "col_id ?row = next_id t" by (simp add: recorded_row_def)
  have "\<forall>r\<in>set (tbl_rows t). col_id r < col_id ?row"
    using next_id_above_rows id by simp
  then have latest: "latest_row (tbl_rows t @ [?row]) = Some ?row"
    by (rule latest_row_snoc)
  have log: "log_to_db (got_active_interface e) (clock_at_log e)
        (get_current_timestamp (clock_at_start e))
        (get_router_ip (host_at_router e)) (got_router_mac e) (Some l) pl j
        (got_signal_strength e) (fst (got_speedtest e)) (snd (got_speedtest e)) (got_isp_name e)
        (check_gateway_reachability (host_at_reach e)
           (get_default_gateway_ip (host_at_gateway e)) 10)
        (got_interface_ip e) s
      = Inr (s\<lparr>data_db := Some (d\<lparr>new_probe_logs :=
                 Some \<lparr>tbl_rows = tbl_rows t @ [?row], tbl_seq = next_id t\<rparr>\<rparr>)\<rparr>)"
    using db tbl by (simp add: log_to_db_def connect_def Let_def recorded_row_def)
  have export: "export_to_csv (s\<lparr>data_db := Some (d\<lparr>new_probe_logs :=
                 Some \<lparr>tbl_rows = tbl_rows t @ [?row], tbl_seq = next_id t\<rparr>\<rparr>)\<rparr>)
      = Inr (s\<lparr>data_db := Some (d\<lparr>new_probe_logs :=
                 Some \<lparr>tbl_rows = tbl_rows t @ [?row], tbl_seq = next_id t\<rparr>\<rparr>),
               new_probe_logs_csv :=
                 Some ((case new_probe_logs_csv s of None \<Rightarrow> [Header csv_header] | Some ls \<Rightarrow> ls)
                       @ [Data ?row])\<rparr>)"
    unfolding export_to_csv_def by (simp add: latest Let_def split: option.splits)
  have "cycle e s = and_then (log_to_db (got_active_interface e) (clock_at_log e)
        (get_current_timestamp (clock_at_start e))
        (get_router_ip (host_at_router e)) (got_router_mac e) (Some l) pl j
        (got_signal_strength e) (fst (got_speedtest e)) (snd (got_speedtest e)) (got_isp_name e)
        (check_gateway_reachability (host_at_reach e)
           (get_default_gateway_ip (host_at_gateway e)) 10)
        (got_interface_ip e) s)
        (\<lambda>s1. and_then (export_to_csv s1) (\<lambda>s2. Inr (sleep 300 s2)))"
    using probe by (simp add: cycle_def probe_of_def Let_def split: prod.splits)
  also have "\<dots> = Inr (recorded e s ?row)"
    unfolding log using db tbl
    by (simp add: and_then_def export sleep_def recorded_def connect_def store_rows_def
        database_rows_def id)
  finally show ?thesis .
qed

section \<open>Runs of the loop\<close>

lemma table_readyE:
  assumes "table_ready s"
  obtains d t where "data_db s = Some d" "new_probe_logs d = Some t"
  using assms by (auto simp: table_ready_def split: option.splits)

lemma table_ready_initialize: "table_ready (initialize_database s)"
  by (auto simp: table_ready_def initialize_database_def create_table_if_not_exists_def
      connect_def Let_def split: option.splits)

lemma extends_refl: "table_ready s \<Longrightarrow> extends s s []"
  by (simp add: extends_def)

lemma extends_sleep: "table_ready s \<Longrightarrow> extends s (sleep n s) []"
  by (simp add: extends_def sleep_def table_ready_def store_rows_def)

lemma extends_recorded:
  assumes "table_ready s"
  shows "extends s (recorded e s row) [row]"
  using assms
  by (auto simp: extends_def recorded_def table_ready_def store_rows_def database_rows_def
      connect_def split: option.splits)

lemma extends_trans:
  assumes "extends s s1 rows1" and "extends s1 s2 rows2"
  shows "extends s s2 (rows1 @ rows2)"
  using assms by (auto simp: extends_def split: if_splits)

lemma ping_router_complete:
  assumes "fst (ping_router h ip count) \<noteq> None"
  shows "fst (snd (ping_router h ip count)) \<noteq> None \<and> snd (snd (ping_router h ip count)) \<noteq> None"
proof (cases "check_output h (ping_command h ip count)")
  case (Inl ex)
  with assms show ?thesis by (simp add: ping_router_raised)
next
  case (Inr out)
  show ?thesis
  proof (cases "count = 0")
    case True
    with assms show ?thesis by (simp add: ping_router_zero_count)
  next
    case False
    from ping_router_returned [OF Inr False] show ?thesis by simp
  qed
qed

lemma cycle_outcome:
  assumes "table_ready s"
  shows "(fst (probe_of e) = None \<and> cycle e s = Inr (sleep 50 s))
       \<or> (\<exists>l pl j i. probe_of e = (Some l, Some pl, Some j)
            \<and> (\<forall>r\<in>set (store_rows s). col_id r < i)
            \<and> cycle e s = Inr (recorded e s (recorded_row e i (Some l) (Some pl) (Some j))))"
proof (cases "fst (probe_of e)")
  case None
  then show ?thesis by (simp add: cycle_skip)
next
  case (Some l)
  then have "fst (probe_of e) \<noteq> None" by simp
  from ping_router_complete [OF this [unfolded probe_of_def]]
  obtain pl j where "fst (snd (probe_of e)) = Some pl" "snd (snd (probe_of e)) = Some j"
    by (auto simp: probe_of_def)
  with Some have probe: "probe_of e = (Some l, Some pl, Some j)"
    by (cases "probe_of e") auto
  from assms obtain d t where db: "data_db s = Some d" "new_probe_logs d = Some t"
    by (rule table_readyE)
  have rows: "store_rows s = tbl_rows t"
    using db by (simp add: store_rows_def database_rows_def)
  have "\<forall>r\<in>set (store_rows s). col_id r < next_id t"
    unfolding rows using next_id_above_rows by blast
  with cycle_record [OF db probe] probe show ?thesis by blast
qed

lemma cycle_extends:
  assumes "table_ready s"
  shows "\<exists>s' rows. cycle e s = Inr s' \<and> extends s s' rows \<and> (\<forall>r\<in>set rows. complete r)"
  using cycle_outcome [OF assms, of e]
proof (elim disjE conjE exE)
  assume "cycle e s = Inr (sleep 50 s)"
  with extends_sleep [OF assms, of 50] show ?thesis by fastforce
next
  fix l pl j i
  assume c: "cycle e s = Inr (recorded e s (recorded_row e i (Some l) (Some pl) (Some j)))"
  have "complete (recorded_row e i (Some l) (Some pl) (Some j))"
    by (simp add: complete_def recorded_row_def)
  with c extends_recorded [OF assms] show ?thesis by fastforce
qed

lemma run_loop_extends:
  assumes "table_ready s"
  shows "\<exists>s' rows. run_loop es s = Inr s' \<and> extends s s' rows \<and> (\<forall>r\<in>set rows. complete r)"
  using assms
proof (induction es arbitrary: s)
  case Nil
  then show ?case using extends_refl by fastforce
next
  case (Cons e es)
  from cycle_extends [OF Cons.prems, of e] obtain s1 rows1 where
    1: "cycle e s = Inr s1" "extends s s1 rows1" "\<forall>r\<in>set rows1. complete r" by blast
  from 1(2) have "table_ready s1" by (simp add: extends_def)
  from Cons.IH [OF this] obtain s2 rows2 where
    2: "run_loop es s1 = Inr s2" "extends s1 s2 rows2" "\<forall>r\<in>set rows2. complete r" by blast
  have "run_loop (e # es) s = Inr s2" using 1(1) 2(1) by (simp add: and_then_def)
  moreover have "extends s s2 (rows1 @ rows2)" using 1(2) 2(2) by (rule extends_trans)
  moreover have "\<forall>r\<in>set (rows1 @ rows2). complete r" using 1(3) 2(3) by auto
  ultimately show ?case by blast
qed

lemma main_table_ready:
  assumes "main es s0 = Inr s"
  shows "table_ready s"
  using assms run_loop_extends [OF table_ready_initialize, of es s0]
  by (auto simp: main_def extends_def)

lemma main_total: "\<exists>s. main es s0 = Inr s"
  using run_loop_extends [OF table_ready_initialize, of es s0] by (auto simp: main_def)

lemma store_rows_initialize: "store_rows (initialize_database s) = store_rows s"
  by (auto simp: store_rows_def database_rows_def initialize_database_def Let_def connect_def
      create_table_if_not_exists_def split: option.splits)

lemma csv_initialize: "new_probe_logs_csv (initialize_database s) = new_probe_logs_csv s"
  by (simp add: initialize_database_def Let_def)

lemma main_extends:
  assumes "main es s0 = Inr s"
  shows "\<exists>rows. store_rows s = store_rows s0 @ rows
      \<and> new_probe_logs_csv s =
          (if rows = [] then new_probe_logs_csv s0
           else Some ((case new_probe_logs_csv s0 of None \<Rightarrow> [Header csv_header] | Some ls \<Rightarrow> ls)
                      @ map Data rows))
      \<and> (\<forall>r\<in>set rows. complete r)"
  using assms run_loop_extends [OF table_ready_initialize, of es s0]
  by (auto simp: main_def extends_def store_rows_initialize csv_initialize)

lemma data_rows_append: "data_rows (ls @ ls') = data_rows ls @ data_rows ls'"
  by (induction ls rule: data_rows.induct) auto

lemma data_rows_map_Data: "data_rows (map Data rows) = rows"
  by (induction rows) auto

lemma header_count_append: "header_count (ls @ ls') = header_count ls + header_count ls'"
  by (induction ls rule: header_count.induct) auto

lemma header_count_map_Data: "header_count (map Data rows) = 0"
  by (induction rows) auto

lemma ping_router_three_replies:
  "ping_router (ping_host (Inr three_replies)) (Some ''192.168.1.1'') 10
     = (Some 21, Some 70, Some 1)"
proof -
  have m: "arithmetic_mean [20, 22, 21] = of_int 21"
    by (simp add: arithmetic_mean_def)
  have "sample_stdev [20, 22, 21] = 1"
    by (simp add: sample_stdev_def arithmetic_mean_def)
  then have sd: "sample_stdev [20, 22, 21] = of_int 1" by simp
  have r21: "py_round (arithmetic_mean [20, 22, 21]) 2 = 21"
    unfolding m py_round_of_int by simp
  have r1: "py_round (sample_stdev [20, 22, 21]) 2 = 1"
    unfolding sd py_round_of_int by simp
  have "(10::int) \<noteq> 0" by simp
  from ping_router_returned [OF check_output_ping_host this]
  show ?thesis by (simp add: reply_series_three_replies r21 r1)
qed

lemma ping_router_no_replies:
  "ping_router (ping_host (Inr no_replies)) (Some ''192.168.1.1'') 10
     = (None, Some 100, Some 0)"
proof -
  have "(10::int) \<noteq> 0" by simp
  from ping_router_returned [OF check_output_ping_host this]
  show ?thesis by (simp add: reply_series_no_replies)
qed

lemma ping_router_failed:
  "ping_router (ping_host (Inl CalledProcessError)) (Some ''192.168.1.1'') 10
     = (None, None, None)"
  by (rule ping_router_raised [OF check_output_ping_host])

lemma get_router_ip_router_host: "get_router_ip router_host = ''192.168.1.1''"
  by (simp add: get_router_ip_def router_host_def and_then_def match_default_via_def
      is_digit_dot_def is_digit_def)

lemma probe_of_example:
  "probe_of (example_env outcome) = ping_router (ping_host outcome) (Some ''192.168.1.1'') 10"
  by (simp add: probe_of_def example_env_def get_router_ip_router_host)

lemma main_Nil: "main [] s0 = Inr (initialize_database s0)"
  by (simp add: main_def)

lemma mirror_lines_recorded:
  "mirror_lines (recorded e s row) =
     (case new_probe_logs_csv s of None \<Rightarrow> [Header csv_header] | Some ls \<Rightarrow> ls) @ [Data row]"
  by (simp add: mirror_lines_def recorded_def)

lemma data_rows_recorded:
  "data_rows (mirror_lines (recorded e s row)) = data_rows (mirror_lines s) @ [row]"
  unfolding mirror_lines_recorded
  by (cases "new_probe_logs_csv s") (simp_all add: data_rows_append mirror_lines_def)

lemma store_rows_recorded:
  "table_ready s \<Longrightarrow> store_rows (recorded e s row) = store_rows s @ [row]"
  using extends_recorded [of s e row] by (simp add: extends_def)

text \<open>
  C1.  Let \<open>s\<close> be the state the program has reached after any number of passes from any
  initial files, and let the next pass probe with latency \<open>fst (probe_of e)\<close>.  When the
  latency is absent the pass ends normally, leaves the data file and the mirror as they
  were and sleeps 50 seconds.  When it is present the pass appends exactly one row to the
  store and the same row to the mirror, the row carries that latency, and the pass sleeps
  300 seconds.
\<close>

theorem C1_persisted_iff_latency:
  assumes "main es s0 = Inr s"
  shows "(fst (probe_of e) = None \<longrightarrow>
            (\<exists>s'. cycle e s = Inr s' \<and> data_db s' = data_db s
               \<and> new_probe_logs_csv s' = new_probe_logs_csv s \<and> slept s' = slept s @ [50]))
       \<and> (fst (probe_of e) \<noteq> None \<longrightarrow>
            (\<exists>s' row. cycle e s = Inr s' \<and> store_rows s' = store_rows s @ [row]
               \<and> data_rows (mirror_lines s') = data_rows (mirror_lines s) @ [row]
               \<and> col_latency row = fst (probe_of e) \<and> slept s' = slept s @ [300]))"
proof -
  from assms have ready: "table_ready s" by (rule main_table_ready)
  show ?thesis
    using cycle_outcome [OF ready, of e]
  proof (elim disjE conjE exE)
    assume "fst (probe_of e) = None" and "cycle e s = Inr (sleep 50 s)"
    then show ?thesis by (simp add: sleep_def)
  next
    fix l pl j i
    assume probe: "probe_of e = (Some l, Some pl, Some j)"
      and c: "cycle e s = Inr (recorded e s (recorded_row e i (Some l) (Some pl) (Some j)))"
    let ?row = "recorded_row e i (Some l) (Some pl) (Some j)"
    have "store_rows (recorded e s ?row) = store_rows s @ [?row]"
      using ready by (rule store_rows_recorded)
    moreover have "data_rows (mirror_lines (recorded e s ?row)) = data_rows (mirror_lines s) @ [?row]"
      by (rule data_rows_recorded)
    moreover have "col_latency ?row = fst (probe_of e)"
      using probe by (simp add: recorded_row_def)
    moreover have "slept (recorded e s ?row) = slept s @ [300]"
      by (simp add: recorded_def)
    ultimately show ?thesis using c probe by auto
  qed
qed

theorem C1_persisted_iff_latency_witness:
  "main [] fresh = Inr (initialize_database fresh)
   \<and> fst (probe_of (example_env (Inr no_replies))) = None
   \<and> (\<exists>s'. cycle (example_env (Inr no_replies)) (initialize_database fresh) = Inr s'
         \<and> data_db s' = data_db (initialize_database fresh)
         \<and> new_probe_logs_csv s' = new_probe_logs_csv (initialize_database fresh)
         \<and> slept s' = slept (initialize_database fresh) @ [50])
   \<and> fst (probe_of (example_env (Inr three_replies))) = Some 21
   \<and> (\<exists>s' row. cycle (example_env (Inr three_replies)) (initialize_database fresh) = Inr s'
         \<and> store_rows s' = store_rows (initialize_database fresh) @ [row]
         \<and> data_rows (mirror_lines s')
             = data_rows (mirror_lines (initialize_database fresh)) @ [row]
         \<and> col_latency row = fst (probe_of (example_env (Inr three_replies)))
         \<and> slept s' = slept (initialize_database fresh) @ [300])"
proof -
  have skip: "fst (probe_of (example_env (Inr no_replies))) = None"
    by (simp add: probe_of_example ping_router_no_replies)
  have rec: "fst (probe_of (example_env (Inr three_replies))) = Some 21"
    by (simp add: probe_of_example ping_router_three_replies)
  from C1_persisted_iff_latency [OF main_Nil, of "example_env (Inr no_replies)" fresh] skip
  have 1: "\<exists>s'. cycle (example_env (Inr no_replies)) (initialize_database fresh) = Inr s'
         \<and> data_db s' = data_db (initialize_database fresh)
         \<and> new_probe_logs_csv s' = new_probe_logs_csv (initialize_database fresh)
         \<and> slept s' = slept (initialize_database fresh) @ [50]" by blast
  from rec have "fst (probe_of (example_env (Inr three_replies))) \<noteq> None" by simp
  with C1_persisted_iff_latency [OF main_Nil, of "example_env (Inr three_replies)" fresh]
  have 2: "\<exists>s' row. cycle (example_env (Inr three_replies)) (initialize_database fresh) = Inr s'
         \<and> store_rows s' = store_rows (initialize_database fresh) @ [row]
         \<and> data_rows (mirror_lines s')
             = data_rows (mirror_lines (initialize_database fresh)) @ [row]
         \<and> col_latency row = fst (probe_of (example_env (Inr three_replies)))
         \<and> slept s' = slept (initialize_database fresh) @ [300]" by blast
  from main_Nil skip 1 rec 2 show ?thesis by blast
qed



section \<open>The exporter and execution errors of the probe\<close>

lemma export_latest:
  assumes "data_db s = Some d" and "new_probe_logs d = Some t"
    and "latest_row (tbl_rows t) = Some r"
  shows "export_to_csv s =
     Inr (s\<lparr>new_probe_logs_csv :=
            Some ((case new_probe_logs_csv s of None \<Rightarrow> [Header csv_header] | Some ls \<Rightarrow> ls)
                  @ [Data r])\<rparr>)"
  using assms by (simp add: export_to_csv_def Let_def split: option.splits)

lemma latest_row_recorded:
  assumes "table_ready s" and "\<forall>r\<in>set (store_rows s). col_id r < col_id row"
  shows "latest_row (store_rows (recorded e s row)) = Some row"
  using assms by (simp add: store_rows_recorded latest_row_snoc)

lemma cycle_latest:
  assumes "table_ready s" and "fst (probe_of e) \<noteq> None"
  shows "\<exists>s' row. cycle e s = Inr s'
     \<and> store_rows s' = store_rows s @ [row]
     \<and> latest_row (store_rows s') = Some row
     \<and> mirror_lines s' =
          (case new_probe_logs_csv s of None \<Rightarrow> [Header csv_header] | Some ls \<Rightarrow> ls) @ [Data row]"
  using cycle_outcome [OF assms(1), of e]
proof (elim disjE conjE exE)
  assume "fst (probe_of e) = None"
  with assms(2) show ?thesis by simp
next
  fix l pl j i
  assume above: "\<forall>r\<in>set (store_rows s). col_id r < i"
    and c: "cycle e s = Inr (recorded e s (recorded_row e i (Some l) (Some pl) (Some j)))"
  let ?row = "recorded_row e i (Some l) (Some pl) (Some j)"
  have id: "col_id ?row = i" by (simp add: recorded_row_def)
  have "latest_row (store_rows (recorded e s ?row)) = Some ?row"
    using assms(1) above id by (simp add: latest_row_recorded)
  moreover have "store_rows (recorded e s ?row) = store_rows s @ [?row]"
    using assms(1) by (rule store_rows_recorded)
  ultimately show ?thesis
    using c mirror_lines_recorded [of e s ?row] by blast
qed

lemma main_mirror_rows:
  assumes "main es s0 = Inr s"
  shows "\<exists>rows. store_rows s = store_rows s0 @ rows
      \<and> data_rows (mirror_lines s) = data_rows (mirror_lines s0) @ rows
      \<and> header_count (mirror_lines s) =
          (if new_probe_logs_csv s0 = None \<and> rows \<noteq> [] then 1
           else header_count (mirror_lines s0))"
proof -
  from main_extends [OF assms] obtain rows where
    rows: "store_rows s = store_rows s0 @ rows"
    and csv: "new_probe_logs_csv s =
          (if rows = [] then new_probe_logs_csv s0
           else Some ((case new_probe_logs_csv s0 of None \<Rightarrow> [Header csv_header] | Some ls \<Rightarrow> ls)
                      @ map Data rows))"
    by blast
  have "data_rows (mirror_lines s) = data_rows (mirror_lines s0) @ rows"
    using csv
    by (cases "new_probe_logs_csv s0")
       (auto simp: mirror_lines_def data_rows_append data_rows_map_Data split: if_splits)
  moreover have "header_count (mirror_lines s) =
          (if new_probe_logs_csv s0 = None \<and> rows \<noteq> [] then 1
           else header_count (mirror_lines s0))"
    using csv
    by (cases "new_probe_logs_csv s0")
       (auto simp: mirror_lines_def header_count_append header_count_map_Data split: if_splits)
  ultimately show ?thesis using rows by blast
qed

text \<open>
  C6.  An invocation of \<^verbatim>\<open>export_to_csv\<close> on a store whose latest row is \<open>r\<close> writes the
  header first exactly when the mirror did not exist, and then the one data row \<open>r\<close>.  In
  every state \<open>s\<close> the program reaches, a pass with a latency ends with the row it appended
  as the latest row of the store and as the last line of the mirror.  Over a run the
  mirror never holds more data rows than the store if it did not at the start, a mirror
  the run created holds exactly one header, and an existing mirror gets no further header.
\<close>

theorem C6_export_latest:
  assumes "main es s0 = Inr s"
  shows "(data_db s1 = Some d \<and> new_probe_logs d = Some t \<and> latest_row (tbl_rows t) = Some r \<longrightarrow>
            export_to_csv s1 =
              Inr (s1\<lparr>new_probe_logs_csv :=
                     Some ((case new_probe_logs_csv s1 of None \<Rightarrow> [Header csv_header]
                            | Some ls \<Rightarrow> ls) @ [Data r])\<rparr>))
       \<and> (fst (probe_of e) \<noteq> None \<longrightarrow>
            (\<exists>s' row. cycle e s = Inr s'
               \<and> store_rows s' = store_rows s @ [row]
               \<and> latest_row (store_rows s') = Some row
               \<and> mirror_lines s' =
                    (case new_probe_logs_csv s of None \<Rightarrow> [Header csv_header] | Some ls \<Rightarrow> ls)
                    @ [Data row]
               \<and> last (mirror_lines s') = Data row))
       \<and> (length (data_rows (mirror_lines s0)) \<le> length (store_rows s0) \<longrightarrow>
            length (data_rows (mirror_lines s)) \<le> length (store_rows s))
       \<and> (new_probe_logs_csv s0 = None \<longrightarrow>
            header_count (mirror_lines s) = (if new_probe_logs_csv s = None then 0 else 1))
       \<and> (new_probe_logs_csv s0 \<noteq> None \<longrightarrow>
            header_count (mirror_lines s) = header_count (mirror_lines s0))"
proof -
  from assms have ready: "table_ready s" by (rule main_table_ready)
  have A: "data_db s1 = Some d \<and> new_probe_logs d = Some t \<and> latest_row (tbl_rows t) = Some r \<longrightarrow>
            export_to_csv s1 =
              Inr (s1\<lparr>new_probe_logs_csv :=
                     Some ((case new_probe_logs_csv s1 of None \<Rightarrow> [Header csv_header]
                            | Some ls \<Rightarrow> ls) @ [Data r])\<rparr>)"
    using export_latest by blast
  have B: "fst (probe_of e) \<noteq> None \<longrightarrow>
            (\<exists>s' row. cycle e s = Inr s'
               \<and> store_rows s' = store_rows s @ [row]
               \<and> latest_row (store_rows s') = Some row
               \<and> mirror_lines s' =
                    (case new_probe_logs_csv s of None \<Rightarrow> [Header csv_header] | Some ls \<Rightarrow> ls)
                    @ [Data row]
               \<and> last (mirror_lines s') = Data row)"
  proof
    assume "fst (probe_of e) \<noteq> None"
    from cycle_latest [OF ready this] obtain s' row where
      "cycle e s = Inr s'" "store_rows s' = store_rows s @ [row]"
      "latest_row (store_rows s') = Some row"
      "mirror_lines s' =
          (case new_probe_logs_csv s of None \<Rightarrow> [Header csv_header] | Some ls \<Rightarrow> ls) @ [Data row]"
      by blast
    moreover from this(4) have "last (mirror_lines s') = Data row" by simp
    ultimately show "\<exists>s' row. cycle e s = Inr s'
               \<and> store_rows s' = store_rows s @ [row]
               \<and> latest_row (store_rows s') = Some row
               \<and> mirror_lines s' =
                    (case new_probe_logs_csv s of None \<Rightarrow> [Header csv_header] | Some ls \<Rightarrow> ls)
                    @ [Data row]
               \<and> last (mirror_lines s') = Data row" by blast
  qed
  from main_mirror_rows [OF assms] obtain rows where
    rows: "store_rows s = store_rows s0 @ rows"
      "data_rows (mirror_lines s) = data_rows (mirror_lines s0) @ rows"
      "header_count (mirror_lines s) =
          (if new_probe_logs_csv s0 = None \<and> rows \<noteq> [] then 1
           else header_count (mirror_lines s0))" by blast
  from main_extends [OF assms] rows(1) have csv: "new_probe_logs_csv s =
          (if rows = [] then new_probe_logs_csv s0
           else Some ((case new_probe_logs_csv s0 of None \<Rightarrow> [Header csv_header] | Some ls \<Rightarrow> ls)
                      @ map Data rows))"
    by auto
  have C: "length (data_rows (mirror_lines s0)) \<le> length (store_rows s0) \<longrightarrow>
            length (data_rows (mirror_lines s)) \<le> length (store_rows s)"
    using rows(1,2) by simp
  have D: "new_probe_logs_csv s0 = None \<longrightarrow>
            header_count (mirror_lines s) = (if new_probe_logs_csv s = None then 0 else 1)"
    using rows(3) csv by (auto simp: mirror_lines_def)
  have E: "new_probe_logs_csv s0 \<noteq> None \<longrightarrow>
            header_count (mirror_lines s) = header_count (mirror_lines s0)"
    using rows(3) by simp
  from A B C D E show ?thesis by blast
qed


lemma probe_three: "probe_of (example_env (Inr three_replies)) = (Some 21, Some 70, Some 1)"
  by (simp add: probe_of_example ping_router_three_replies)

lemma store_rows_fresh: "store_rows fresh = []"
  by (simp add: store_rows_def database_rows_def fresh_def)

lemma latest_row_earlier_run:
  "data_db earlier_run = Some \<lparr>new_probe_logs = Some
        \<lparr>tbl_rows = [recorded_row (example_env (Inr three_replies)) 1 (Some 21) (Some 70) (Some 1)],
         tbl_seq = 1\<rparr>\<rparr>
   \<and> new_probe_logs_csv earlier_run = None"
  by (simp add: earlier_run_def)

text \<open>
  One recording pass on a machine where the program never ran, and an export on the
  store of an earlier run.
\<close>

theorem C6_export_latest_witness:
  "\<exists>s. main [example_env (Inr three_replies)] fresh = Inr s
     \<and> export_to_csv earlier_run =
         Inr (earlier_run\<lparr>new_probe_logs_csv := Some [Header csv_header,
            Data (recorded_row (example_env (Inr three_replies)) 1 (Some 21) (Some 70) (Some 1))]\<rparr>)
     \<and> (\<exists>s' row. cycle (example_env (Inr three_replies)) s = Inr s'
           \<and> store_rows s' = store_rows s @ [row]
           \<and> latest_row (store_rows s') = Some row
           \<and> last (mirror_lines s') = Data row)
     \<and> length (data_rows (mirror_lines s)) \<le> length (store_rows s)
     \<and> header_count (mirror_lines s) = 1"
proof -
  let ?e = "example_env (Inr three_replies)"
  let ?r = "recorded_row ?e 1 (Some 21) (Some 70) (Some 1)"
  let ?t = "\<lparr>tbl_rows = [?r], tbl_seq = 1\<rparr>"
  have p: "fst (probe_of ?e) \<noteq> None" by (simp add: probe_three)
  from cycle_latest [OF table_ready_initialize p, of fresh] obtain s row where
    c: "cycle ?e (initialize_database fresh) = Inr s"
    and m: "mirror_lines s =
       (case new_probe_logs_csv (initialize_database fresh) of None \<Rightarrow> [Header csv_header]
        | Some ls \<Rightarrow> ls) @ [Data row]"
    by blast
  from c have run: "main [?e] fresh = Inr s" by (simp add: main_def and_then_def)
  from m have present: "new_probe_logs_csv s \<noteq> None"
    by (auto simp: mirror_lines_def split: option.splits)
  have absent: "new_probe_logs_csv fresh = None" by (simp add: fresh_def)
  have le: "length (data_rows (mirror_lines fresh)) \<le> length (store_rows fresh)"
    by (simp add: mirror_lines_def fresh_def)
  have latest: "latest_row (tbl_rows ?t) = Some ?r" by simp
  from C6_export_latest [OF run, of earlier_run "\<lparr>new_probe_logs = Some ?t\<rparr>" ?t ?r ?e]
    latest_row_earlier_run latest p present absent le run
  show ?thesis by auto
qed

text \<open>
  C4, as amended.  When the ping command raises, the prober returns \<^verbatim>\<open>None\<close> for all three
  statistics, and a pass whose probe raised skips: it ends normally after sleeping 50
  seconds.  The result differs from that of an empty series, which is latency
  \<^verbatim>\<open>None\<close>, packet loss 100 and jitter 0.0.
\<close>

theorem C4_probe_error:
  "(check_output h (ping_command h ip count) = Inl ex \<longrightarrow>
      ping_router h ip count = (None, None, None))
   \<and> (check_output (host_at_ping e)
         (ping_command (host_at_ping e) (Some (get_router_ip (host_at_router e))) 10) = Inl ex' \<longrightarrow>
       fst (probe_of e) = None \<and> cycle e s = Inr (sleep 50 s))
   \<and> (check_output h (ping_command h ip count) = Inr out \<and> reply_series out = [] \<and> count \<noteq> 0 \<longrightarrow>
       ping_router h ip count = (None, Some 100, Some 0))"
proof -
  have A: "check_output h (ping_command h ip count) = Inl ex \<longrightarrow>
      ping_router h ip count = (None, None, None)"
    using ping_router_raised by blast
  have B: "check_output (host_at_ping e)
         (ping_command (host_at_ping e) (Some (get_router_ip (host_at_router e))) 10) = Inl ex' \<longrightarrow>
       fst (probe_of e) = None \<and> cycle e s = Inr (sleep 50 s)"
  proof
    assume "check_output (host_at_ping e)
         (ping_command (host_at_ping e) (Some (get_router_ip (host_at_router e))) 10) = Inl ex'"
    then have "probe_of e = (None, None, None)"
      unfolding probe_of_def by (rule ping_router_raised)
    then have "fst (probe_of e) = None" by simp
    then show "fst (probe_of e) = None \<and> cycle e s = Inr (sleep 50 s)"
      by (simp add: cycle_skip)
  qed
  have C: "check_output h (ping_command h ip count) = Inr out \<and> reply_series out = [] \<and> count \<noteq> 0 \<longrightarrow>
       ping_router h ip count = (None, Some 100, Some 0)"
  proof (intro impI, elim conjE)
    assume run: "check_output h (ping_command h ip count) = Inr out"
      and empty: "reply_series out = []" and nz: "count \<noteq> 0"
    from ping_router_returned [OF run nz] empty nz show
      "ping_router h ip count = (None, Some 100, Some 0)" by simp
  qed
  from A B C show ?thesis by blast
qed

lemma check_output_example_ping:
  "check_output (host_at_ping (example_env outcome))
     (ping_command (host_at_ping (example_env outcome))
        (Some (get_router_ip (host_at_router (example_env outcome)))) 10) = outcome"
  by (simp add: example_env_def get_router_ip_router_host check_output_ping_host)

text \<open>
  A ping that exits with an error, and a ping that returns without replies.
\<close>

theorem C4_probe_error_witness:
  "check_output (ping_host (Inl CalledProcessError))
     (ping_command (ping_host (Inl CalledProcessError)) (Some ''192.168.1.1'') 10)
     = Inl CalledProcessError
   \<and> ping_router (ping_host (Inl CalledProcessError)) (Some ''192.168.1.1'') 10
       = (None, None, None)
   \<and> cycle (example_env (Inl CalledProcessError)) fresh = Inr (sleep 50 fresh)
   \<and> reply_series no_replies = []
   \<and> ping_router (ping_host (Inr no_replies)) (Some ''192.168.1.1'') 10
       = (None, Some 100, Some 0)"
proof -
  have ten: "(10::int) \<noteq> 0" by simp
  from C4_probe_error [of "ping_host (Inl CalledProcessError)" "Some ''192.168.1.1''" 10
      CalledProcessError "example_env (Inl CalledProcessError)" CalledProcessError fresh]
    C4_probe_error [of "ping_host (Inr no_replies)" "Some ''192.168.1.1''" 10 _ _ _ _ no_replies]
    check_output_ping_host check_output_example_ping reply_series_no_replies ten
  show ?thesis by simp
qed

text \<open>
  The claim as stated fails: on an execution error jitter and packet loss are absent,
  not 0.0 and 100 as for the empty series.
\<close>

theorem C4_probe_error_counterexample:
  "ping_router (ping_host (Inl CalledProcessError)) (Some ''192.168.1.1'') 10
     = (None, None, None)
   \<and> ping_router (ping_host (Inl CalledProcessError)) (Some ''192.168.1.1'') 10
       \<noteq> ping_router (ping_host (Inr no_replies)) (Some ''192.168.1.1'') 10"
  by (simp add: ping_router_failed ping_router_no_replies)

section \<open>Reachability, timestamps, completeness of rows and gateway resolution\<close>


lemma unresolved_host:
  "parsed_gateway (search match_default_gateway)
     (run_argv (ping_host outcome) [''ipconfig'']) = None
   \<and> parsed_gateway (search match_default_via)
       (run_argv (ping_host outcome) [''ip'', ''route'']) = None
   \<and> parsed_gateway (search_multiline match_route_n True)
       (run_argv (ping_host outcome) [''route'', ''-n'']) = None"
  by (simp add: parsed_gateway_def ping_host_def)

lemma reachability_three_replies:
  "str (round_half_even (real (length (findall_time three_replies)) / real_of_int 10 * 100))
     @ ''%'' = ''30%''"
proof -
  have "length (findall_time three_replies) = 3"
    using length_reply_series [of three_replies] by (simp add: reply_series_three_replies)
  then show ?thesis
    by (simp add: round_half_even_def str_def str_nat.simps)
qed




lemma main_one_recording:
  assumes "fst (probe_of e) \<noteq> None"
  shows "\<exists>s i l pl j. main [e] fresh = Inr s
     \<and> store_rows s = [recorded_row e i (Some l) (Some pl) (Some j)]"
  using cycle_outcome [OF table_ready_initialize, of e fresh]
proof (elim disjE conjE exE)
  assume "fst (probe_of e) = None"
  with assms show ?thesis by simp
next
  fix l pl j i
  assume c: "cycle e (initialize_database fresh)
      = Inr (recorded e (initialize_database fresh) (recorded_row e i (Some l) (Some pl) (Some j)))"
  let ?row = "recorded_row e i (Some l) (Some pl) (Some j)"
  have "store_rows (recorded e (initialize_database fresh) ?row)
      = store_rows (initialize_database fresh) @ [?row]"
    using table_ready_initialize by (rule store_rows_recorded)
  then have "store_rows (recorded e (initialize_database fresh) ?row) = [?row]"
    by (simp add: store_rows_initialize store_rows_fresh)
  moreover from c have "main [e] fresh = Inr (recorded e (initialize_database fresh) ?row)"
    by (simp add: main_def and_then_def)
  ultimately show ?thesis by blast
qed

text \<open>
  C8.  The claim is that the date and time stored with a sample are the clock reading
  taken when the pass started.  The code does not do so: \<^verbatim>\<open>log_to_db\<close> ignores the
  timestamp it is given (any two timestamps give the same result) and stores its own,
  later reading.  In a pass that read the clock at 12:00:00 when it started and at
  12:00:45 inside \<^verbatim>\<open>log_to_db\<close>, the stored row carries 12:00:45.
\<close>

theorem C8_timestamp_recomputed:
  "log_to_db interface now timestamp router_ip router_mac latency packet_loss jitter
     signal_strength download_speed upload_speed isp_name gw_reach interface_ip s
   = log_to_db interface now timestamp' router_ip router_mac latency packet_loss jitter
       signal_strength download_speed upload_speed isp_name gw_reach interface_ip s
   \<and> get_current_timestamp (clock_at_start (example_env (Inr three_replies)))
       = ''2024-01-01 12:00:00''
   \<and> (\<exists>s'. main [example_env (Inr three_replies)] fresh = Inr s'
         \<and> map col_date (store_rows s') = [''2024-01-01'']
         \<and> map col_time (store_rows s') = [''12:00:45''])"
proof -
  have A: "log_to_db interface now timestamp router_ip router_mac latency packet_loss jitter
     signal_strength download_speed upload_speed isp_name gw_reach interface_ip s
   = log_to_db interface now timestamp' router_ip router_mac latency packet_loss jitter
       signal_strength download_speed upload_speed isp_name gw_reach interface_ip s"
    by (simp add: log_to_db_def)
  have B: "get_current_timestamp (clock_at_start (example_env (Inr three_replies)))
       = ''2024-01-01 12:00:00''"
    by (simp add: get_current_timestamp_def example_env_def noon_def)
  have "fst (probe_of (example_env (Inr three_replies))) \<noteq> None"
    by (simp add: probe_three)
  from main_one_recording [OF this] obtain s' i l pl j where
    run: "main [example_env (Inr three_replies)] fresh = Inr s'"
    and rows: "store_rows s'
      = [recorded_row (example_env (Inr three_replies)) i (Some l) (Some pl) (Some j)]"
    by blast
  from rows have "map col_date (store_rows s') = [''2024-01-01'']"
    and "map col_time (store_rows s') = [''12:00:45'']"
    by (simp_all add: recorded_row_def example_env_def after_noon_def)
  with run have C: "\<exists>s'. main [example_env (Inr three_replies)] fresh = Inr s'
         \<and> map col_date (store_rows s') = [''2024-01-01'']
         \<and> map col_time (store_rows s') = [''12:00:45'']"
    by (intro exI [of _ s']) simp
  from A B C show ?thesis by blast
qed

text \<open>
  C9, as amended.  Whenever the prober returns a latency it also returns a packet loss
  and a jitter, and every row a run of the program appends to the store has all three
  statistics present.
\<close>

theorem C9_rows_complete:
  "(fst (ping_router h ip count) \<noteq> None \<longrightarrow>
      fst (snd (ping_router h ip count)) \<noteq> None \<and> snd (snd (ping_router h ip count)) \<noteq> None)
   \<and> (main es s0 = Inr s \<longrightarrow>
        (\<exists>rows. store_rows s = store_rows s0 @ rows
           \<and> (\<forall>r\<in>set rows. col_latency r \<noteq> None \<and> col_jitter r \<noteq> None
                 \<and> col_packet_loss r \<noteq> None)))"
proof -
  have A: "fst (ping_router h ip count) \<noteq> None \<longrightarrow>
      fst (snd (ping_router h ip count)) \<noteq> None \<and> snd (snd (ping_router h ip count)) \<noteq> None"
    using ping_router_complete by blast
  have B: "main es s0 = Inr s \<longrightarrow>
        (\<exists>rows. store_rows s = store_rows s0 @ rows
           \<and> (\<forall>r\<in>set rows. col_latency r \<noteq> None \<and> col_jitter r \<noteq> None
                 \<and> col_packet_loss r \<noteq> None))"
  proof
    assume "main es s0 = Inr s"
    from main_extends [OF this] obtain rows where
      "store_rows s = store_rows s0 @ rows" "\<forall>r\<in>set rows. complete r" by blast
    then show "\<exists>rows. store_rows s = store_rows s0 @ rows
           \<and> (\<forall>r\<in>set rows. col_latency r \<noteq> None \<and> col_jitter r \<noteq> None
                 \<and> col_packet_loss r \<noteq> None)"
      unfolding complete_def by blast
  qed
  from A B show ?thesis by blast
qed

text \<open>
  Three replies give three statistics, and the one row of a first recording pass is
  complete.
\<close>

theorem C9_rows_complete_witness:
  "fst (ping_router (ping_host (Inr three_replies)) (Some ''192.168.1.1'') 10) \<noteq> None
   \<and> fst (snd (ping_router (ping_host (Inr three_replies)) (Some ''192.168.1.1'') 10)) \<noteq> None
   \<and> snd (snd (ping_router (ping_host (Inr three_replies)) (Some ''192.168.1.1'') 10)) \<noteq> None
   \<and> (\<exists>s rows. main [example_env (Inr three_replies)] fresh = Inr s
         \<and> store_rows s = store_rows fresh @ rows \<and> length rows = 1
         \<and> list_all (\<lambda>r. col_latency r \<noteq> None \<and> col_jitter r \<noteq> None
                          \<and> col_packet_loss r \<noteq> None) rows)"
proof -
  let ?e = "example_env (Inr three_replies)"
  have p: "fst (ping_router (ping_host (Inr three_replies)) (Some ''192.168.1.1'') 10) \<noteq> None"
    by (simp add: ping_router_three_replies)
  have "fst (probe_of ?e) \<noteq> None" by (simp add: probe_three)
  from main_one_recording [OF this] obtain s i l pl j where
    run: "main [?e] fresh = Inr s"
    and one: "store_rows s = [recorded_row ?e i (Some l) (Some pl) (Some j)]"
    by blast
  from C9_rows_complete [of "ping_host (Inr three_replies)" "Some ''192.168.1.1''" 10
      "[?e]" fresh s] p run
  obtain rows where rows: "store_rows s = store_rows fresh @ rows"
    "\<forall>r\<in>set rows. col_latency r \<noteq> None \<and> col_jitter r \<noteq> None \<and> col_packet_loss r \<noteq> None"
    and stats: "fst (snd (ping_router (ping_host (Inr three_replies)) (Some ''192.168.1.1'') 10))
        \<noteq> None"
      "snd (snd (ping_router (ping_host (Inr three_replies)) (Some ''192.168.1.1'') 10)) \<noteq> None"
    by blast
  from rows(1) one have "length rows = 1" by (auto simp: store_rows_fresh)
  moreover from rows(2) have "list_all (\<lambda>r. col_latency r \<noteq> None \<and> col_jitter r \<noteq> None
                          \<and> col_packet_loss r \<noteq> None) rows"
    by (simp add: list_all_iff)
  ultimately show ?thesis using p stats run rows(1) by blast
qed

text \<open>
  The claim as stated fails: for a batch without replies the prober returns neither a
  complete triple nor three \<^verbatim>\<open>None\<close>s, but latency \<^verbatim>\<open>None\<close> with packet loss 100 and jitter
  0.0.
\<close>

theorem C9_rows_complete_counterexample:
  "ping_router (ping_host (Inr no_replies)) (Some ''192.168.1.1'') 10
     = (None, Some 100, Some 0)"
  by (rule ping_router_no_replies)

text \<open>
  C10.  The \<^verbatim>\<open>get_default_gateway_ip\<close> that the loop calls never returns the string
  \<^verbatim>\<open>unknown\<close>, and returns \<^verbatim>\<open>None\<close> when none of its three commands yields a gateway; the
  shadowed definition returns \<^verbatim>\<open>unknown\<close> when its commands yield none.  Probing the target
  \<^verbatim>\<open>None\<close> raises \<open>TypeError\<close> inside the \<^verbatim>\<open>try\<close> block of the reachability checker, whose
  handler returns \<^verbatim>\<open>unknown\<close>; so a recording pass with an unresolved gateway stores the
  reachability \<^verbatim>\<open>unknown\<close>.
\<close>

theorem C10_gateway_none:
  "get_default_gateway_ip h \<noteq> Some ''unknown''
   \<and> (parsed_gateway (search match_default_gateway) (run_argv h [''ipconfig'']) = None
        \<and> parsed_gateway (search match_default_via) (run_argv h [''ip'', ''route'']) = None
        \<and> parsed_gateway (search_multiline match_route_n True) (run_argv h [''route'', ''-n''])
            = None \<longrightarrow>
        get_default_gateway_ip h = None)
   \<and> (parsed_gateway (search match_default_gateway) (run_shell h ''ipconfig'') = None
        \<and> parsed_gateway (search match_default_via) (run_shell h ''ip route'') = None \<longrightarrow>
        get_default_gateway_ip_shadowed h = ''unknown'')
   \<and> check_output h' (ping_command h' None count) = Inl TypeError
   \<and> check_gateway_reachability h' None count = ''unknown''
   \<and> (get_default_gateway_ip (host_at_gateway e) = None \<and> table_ready s
        \<and> fst (probe_of e) \<noteq> None \<longrightarrow>
        (\<exists>s' row. cycle e s = Inr s' \<and> store_rows s' = store_rows s @ [row]
           \<and> col_gw_reach row = ''unknown''))"
proof -
  have A: "get_default_gateway_ip h \<noteq> Some ''unknown''"
    by (rule get_default_gateway_ip_not_unknown)
  have B: "parsed_gateway (search match_default_gateway) (run_argv h [''ipconfig'']) = None
        \<and> parsed_gateway (search match_default_via) (run_argv h [''ip'', ''route'']) = None
        \<and> parsed_gateway (search_multiline match_route_n True) (run_argv h [''route'', ''-n''])
            = None \<longrightarrow>
        get_default_gateway_ip h = None"
    using get_default_gateway_ip_unparsed by blast
  have C: "parsed_gateway (search match_default_gateway) (run_shell h ''ipconfig'') = None
        \<and> parsed_gateway (search match_default_via) (run_shell h ''ip route'') = None \<longrightarrow>
        get_default_gateway_ip_shadowed h = ''unknown''"
    using shadowed_unparsed by blast
  have D: "check_output h' (ping_command h' None count) = Inl TypeError"
    by (rule check_output_None)
  have E: "check_gateway_reachability h' None count = ''unknown''"
    by (rule reachability_None)
  have F: "get_default_gateway_ip (host_at_gateway e) = None \<and> table_ready s
        \<and> fst (probe_of e) \<noteq> None \<longrightarrow>
        (\<exists>s' row. cycle e s = Inr s' \<and> store_rows s' = store_rows s @ [row]
           \<and> col_gw_reach row = ''unknown'')"
  proof (intro impI, elim conjE)
    assume gw: "get_default_gateway_ip (host_at_gateway e) = None"
      and ready: "table_ready s" and probe: "fst (probe_of e) \<noteq> None"
    from cycle_outcome [OF ready, of e] probe obtain l pl j i where
      c: "cycle e s = Inr (recorded e s (recorded_row e i (Some l) (Some pl) (Some j)))"
      by auto
    let ?row = "recorded_row e i (Some l) (Some pl) (Some j)"
    have "col_gw_reach ?row = ''unknown''"
      using gw by (simp add: recorded_row_def reachability_None)
    moreover have "store_rows (recorded e s ?row) = store_rows s @ [?row]"
      using ready by (rule store_rows_recorded)
    ultimately show "\<exists>s' row. cycle e s = Inr s' \<and> store_rows s' = store_rows s @ [row]
           \<and> col_gw_reach row = ''unknown''"
      using c by blast
  qed
  from A B C D E F show ?thesis by blast
qed

lemma probe_unresolved: "probe_of unresolved_env = (Some 21, Some 70, Some 1)"
  using probe_three
  by (simp add: probe_of_def unresolved_env_def example_env_def)

text \<open>
  A host without a routing table whose router answers: the gateway is \<^verbatim>\<open>None\<close>, the
  stored reachability is \<^verbatim>\<open>unknown\<close>, while the same checker scores the router 30%.
\<close>

theorem C10_gateway_none_witness:
  "get_default_gateway_ip (ping_host (Inr three_replies)) = None
   \<and> get_default_gateway_ip_shadowed (ping_host (Inr three_replies)) = ''unknown''
   \<and> check_gateway_reachability (ping_host (Inr three_replies)) None 10 = ''unknown''
   \<and> check_gateway_reachability (ping_host (Inr three_replies)) (Some ''192.168.1.1'') 10
       = ''30%''
   \<and> (\<exists>s' row. cycle unresolved_env (initialize_database fresh) = Inr s'
         \<and> store_rows s' = store_rows (initialize_database fresh) @ [row]
         \<and> col_gw_reach row = ''unknown'')"
proof -
  let ?h = "ping_host (Inr three_replies)"
  have shell: "parsed_gateway (search match_default_gateway) (run_shell ?h ''ipconfig'') = None
      \<and> parsed_gateway (search match_default_via) (run_shell ?h ''ip route'') = None"
    by (simp add: parsed_gateway_def ping_host_def)
  have ten: "(10::int) \<noteq> 0" by simp
  have "check_gateway_reachability ?h (Some ''192.168.1.1'') 10 =
      str (round_half_even (real (length (findall_time three_replies)) / real_of_int 10 * 100))
      @ ''%''"
    by (rule reachability_returned [OF check_output_ping_host ten])
  then have pct: "check_gateway_reachability ?h (Some ''192.168.1.1'') 10 = ''30%''"
    by (simp only: reachability_three_replies)
  have gw: "host_at_gateway unresolved_env = ?h" by (simp add: unresolved_env_def)
  have probe: "fst (probe_of unresolved_env) \<noteq> None" by (simp add: probe_unresolved)
  note inst = C10_gateway_none [of ?h ?h 10 unresolved_env "initialize_database fresh"]
  from inst unresolved_host [of "Inr three_replies"]
  have none: "get_default_gateway_ip ?h = None" by blast
  from inst shell have sh: "get_default_gateway_ip_shadowed ?h = ''unknown''" by blast
  from inst have un: "check_gateway_reachability ?h None 10 = ''unknown''" by blast
  from inst none gw probe table_ready_initialize
  have "\<exists>s' row. cycle unresolved_env (initialize_database fresh) = Inr s'
         \<and> store_rows s' = store_rows (initialize_database fresh) @ [row]
         \<and> col_gw_reach row = ''unknown''" by simp
  with none sh un pct show ?thesis by blast
qed

end
